theory Spec2Isabelle
  imports Complex_Main "HOL-Library.Product_Lexorder"
begin

section \<open>Feature engineering for the retail forecasting benchmark\<close>

text \<open>
  A shallow embedding of \<^verbatim>\<open>feature_engineering.py\<close>: the calendar helper
  \<^verbatim>\<open>week_of_month\<close>, the feature generators \<^verbatim>\<open>lagged_features\<close> and
  \<^verbatim>\<open>moving_averages\<close>, and the per-round script that joins sales with
  auxiliary data, expands the (store, brand, week) grid and derives the price columns.

  Python integers are \<open>int\<close>. Floating-point numbers are idealised as \<open>real\<close>
  (rounding error is not modelled); a null cell (NaN) is \<open>None\<close>. Every exception the
  code can raise is a value of \<open>error\<close>; \<open>NotModelled\<close> is no exception: it marks
  library behaviour that is left out of the model (the alignment of tables with
  different row labels, which the program never asks for, and the price columns of a
  table without rows).
\<close>

datatype error = ValueError | KeyError | NotModelled

type_synonym cell = "real option"

subsection \<open>Dates\<close>

text \<open>
  \<^verbatim>\<open>datetime.date\<close> of the Python standard library: a date holds year, month and
  day; its constructor and \<^verbatim>\<open>replace\<close> check the fields and raise ValueError; the
  ordinal of a date counts days from 0001-01-01 (ordinal 1) in the proleptic Gregorian
  calendar, and \<^verbatim>\<open>weekday()\<close> is \<^verbatim>\<open>(toordinal() + 6) % 7\<close>, Monday being 0.
\<close>

record date =
  year :: int
  month :: int
  day :: int

definition is_leap :: "int \<Rightarrow> bool" where
  "is_leap y = (y mod 4 = 0 \<and> (y mod 100 \<noteq> 0 \<or> y mod 400 = 0))"

definition DAYS_IN_MONTH :: "int list" where
  "DAYS_IN_MONTH = [-1, 31, 28, 31, 30, 31, 30, 31, 31, 30, 31, 30, 31]"

definition DAYS_BEFORE_MONTH :: "int list" where
  "DAYS_BEFORE_MONTH = [-1, 0, 31, 59, 90, 120, 151, 181, 212, 243, 273, 304, 334]"

definition days_before_year :: "int \<Rightarrow> int" where
  "days_before_year yr = (let y = yr - 1 in y * 365 + y div 4 - y div 100 + y div 400)"

definition days_in_month :: "int \<Rightarrow> int \<Rightarrow> int" where
  "days_in_month y m = (if m = 2 \<and> is_leap y then 29 else DAYS_IN_MONTH ! nat m)"

definition days_before_month :: "int \<Rightarrow> int \<Rightarrow> int" where
  "days_before_month y m =
     DAYS_BEFORE_MONTH ! nat m + (if m > 2 \<and> is_leap y then 1 else 0)"

definition valid_date :: "date \<Rightarrow> bool" where
  "valid_date d \<longleftrightarrow>
     1 \<le> year d \<and> year d \<le> 9999 \<and> 1 \<le> month d \<and> month d \<le> 12 \<and>
     1 \<le> day d \<and> day d \<le> days_in_month (year d) (month d)"

definition replace_day :: "date \<Rightarrow> int \<Rightarrow> error + date" where
  \<comment> \<open>\<^verbatim>\<open>dt.replace(day=n)\<close>: a new date, ValueError when its fields are out of range.\<close>
  "replace_day dt n =
     (let dt' = dt\<lparr>day := n\<rparr> in if valid_date dt' then Inr dt' else Inl ValueError)"

definition toordinal :: "date \<Rightarrow> int" where
  "toordinal d = days_before_year (year d) + days_before_month (year d) (month d) + day d"

definition weekday :: "date \<Rightarrow> int" where
  "weekday d = (toordinal d + 6) mod 7"

subsection \<open>Week of the month\<close>

text \<open>
  \<^verbatim>\<open>adjusted_dom / 7.0\<close> is a floating-point division; \<open>adjusted_dom\<close> is at most
  37, where the quotient is exact enough for \<^verbatim>\<open>ceil\<close> to agree with the ceiling
  of the real quotient.
\<close>

definition week_of_month :: "date \<Rightarrow> error + int" where
  "week_of_month dt =
     (case replace_day dt 1 of
        Inl e \<Rightarrow> Inl e
      | Inr first_day \<Rightarrow>
          (let dom = day dt;
               adjusted_dom = dom + weekday first_day;
               wom = \<lceil>real_of_int adjusted_dom / 7\<rceil>
           in Inr wom))"

subsection \<open>Tables\<close>

text \<open>
  A pandas DataFrame of numeric columns: the row labels (\<open>index\<close>) and the named
  columns in order, each a list of cells. Column names need not be distinct, as in
  pandas. \<open>shape0\<close> is \<^verbatim>\<open>df.shape[0]\<close>, the number of rows.
\<close>

record frame =
  index :: "int list"
  columns :: "(string \<times> cell list) list"

definition shape0 :: "frame \<Rightarrow> nat" where
  "shape0 df = length (index df)"

definition wf_frame :: "frame \<Rightarrow> bool" where
  "wf_frame df = list_all (\<lambda>c. length (snd c) = shape0 df) (columns df)"

definition column_names :: "frame \<Rightarrow> string list" where
  "column_names df = map fst (columns df)"

text \<open>
  \<^verbatim>\<open>df.shift(periods)\<close>: every column moves down by \<open>periods\<close> rows (up when
  \<open>periods\<close> is negative); the rows that have no source row are null; the index and
  the column names stay.
\<close>

definition shift_col :: "int \<Rightarrow> cell list \<Rightarrow> cell list" where
  "shift_col periods xs =
     (if 0 \<le> periods then take (length xs) (replicate (nat periods) None @ xs)
      else drop (nat (- periods)) xs @ replicate (min (nat (- periods)) (length xs)) None)"

definition pd_shift :: "frame \<Rightarrow> int \<Rightarrow> frame" where
  "pd_shift df periods = df\<lparr>columns := map (\<lambda>(n, xs). (n, shift_col periods xs)) (columns df)\<rparr>"

text \<open>
  \<^verbatim>\<open>df.rolling(min_periods, center=False, window).mean()\<close>: row \<open>i\<close> of a column is
  the mean of the non-null cells among rows \<open>i - window + 1 .. i\<close>, null when fewer
  than \<open>min_periods\<close> of them are non-null (or none at all). pandas raises ValueError
  for a negative window and for \<open>min_periods > window\<close>; it checks both when the
  rolling object is built (releases from 1.2 on), whatever the table holds.
\<close>

fun observations :: "cell list \<Rightarrow> real list" where
  "observations [] = []"
| "observations (None # cs) = observations cs"
| "observations (Some v # cs) = v # observations cs"

definition window_mean :: "nat \<Rightarrow> cell list \<Rightarrow> cell" where
  "window_mean min_periods cs =
     (let obs = observations cs
      in if length obs < min_periods \<or> obs = [] then None
         else Some (sum_list obs / real (length obs)))"

definition rolling_mean_col :: "nat \<Rightarrow> nat \<Rightarrow> cell list \<Rightarrow> cell list" where
  "rolling_mean_col min_periods window xs =
     map (\<lambda>i. window_mean min_periods (drop (Suc i - window) (take (Suc i) xs))) [0..<length xs]"

definition pd_rolling_mean :: "frame \<Rightarrow> int \<Rightarrow> int \<Rightarrow> error + frame" where
  "pd_rolling_mean df min_periods window =
     (if min_periods < 0 then Inl ValueError
      else if window < 0 then Inl ValueError
      else if min_periods > window then Inl ValueError
      else Inr (df\<lparr>columns :=
             map (\<lambda>(n, xs). (n, rolling_mean_col (nat min_periods) (nat window) xs)) (columns df)\<rparr>))"

text \<open>
  \<^verbatim>\<open>df.columns = names\<close>: the columns are renamed in place, position by position;
  ValueError when the number of names is not the number of columns.
\<close>

definition set_columns :: "frame \<Rightarrow> string list \<Rightarrow> error + frame" where
  "set_columns df names =
     (if length names \<noteq> length (columns df) then Inl ValueError
      else Inr (df\<lparr>columns := zip names (map snd (columns df))\<rparr>))"

text \<open>
  \<^verbatim>\<open>pd.concat(frames, axis=1)\<close>: ValueError for an empty list; frames that carry the
  same index are put side by side, columns in list order. Frames with different
  indexes are aligned by pandas on the union of their labels; this program never passes
  such frames (\<open>lagged_features\<close> concatenates shifts of one table), and that
  alignment is not modelled: the value \<open>Inl NotModelled\<close> stands for it.
\<close>

definition pd_concat_axis1 :: "frame list \<Rightarrow> error + frame" where
  "pd_concat_axis1 fs =
     (case fs of
        [] \<Rightarrow> Inl ValueError
      | f # _ \<Rightarrow>
          if list_all (\<lambda>g. index g = index f) fs
          then Inr \<lparr>index = index f, columns = concat (map columns fs)\<rparr>
          else Inl NotModelled)"

subsection \<open>Decimal numerals\<close>

text \<open>\<^verbatim>\<open>str(n)\<close> of a Python integer.\<close>

fun str_nat :: "nat \<Rightarrow> string" where
  "str_nat n =
     (if n < 10 then [''0123456789'' ! n]
      else str_nat (n div 10) @ [''0123456789'' ! (n mod 10)])"

declare str_nat.simps [simp del]

definition str :: "int \<Rightarrow> string" where
  "str i = (if i < 0 then CHR ''-'' # str_nat (nat (- i)) else str_nat (nat i))"

subsection \<open>The heap of tables\<close>

text \<open>
  DataFrames are mutable objects and the two feature generators rename the columns of
  a table in place. The heap holds every table that exists; a reference is a position
  in it. \<^verbatim>\<open>shift\<close>, \<^verbatim>\<open>rolling(...).mean()\<close> and \<^verbatim>\<open>pd.concat\<close> each return
  a new object (\<^verbatim>\<open>shift(0)\<close> returns a copy), which \<open>alloc\<close> adds to the heap.
\<close>

type_synonym ref = nat
type_synonym heap = "frame list"

definition alloc :: "heap \<Rightarrow> frame \<Rightarrow> ref \<times> heap" where
  "alloc h f = (length h, h @ [f])"

definition returned :: "error + ref \<times> heap \<Rightarrow> error + frame" where
  \<comment> \<open>the table a call returns, read from the heap it leaves\<close>
  "returned r = (case r of Inl e \<Rightarrow> Inl e | Inr (a, h) \<Rightarrow> Inr (h ! a))"

subsection \<open>Lag features\<close>

text \<open>
  The loop of \<^verbatim>\<open>lagged_features\<close> over \<open>lags\<close>, with \<open>df_list\<close> the references
  collected so far; then the column-wise concatenation.
\<close>

fun lagged_loop :: "heap \<Rightarrow> ref \<Rightarrow> int list \<Rightarrow> ref list \<Rightarrow> error + ref list \<times> heap" where
  "lagged_loop h df [] df_list = Inr (df_list, h)"
| "lagged_loop h df (lag # lags) df_list =
     (let (df_shifted, h1) = alloc h (pd_shift (h ! df) lag)
      in case set_columns (h1 ! df_shifted)
                (map (\<lambda>x. x @ ''_lag'' @ str lag) (column_names (h1 ! df_shifted))) of
           Inl e \<Rightarrow> Inl e
         | Inr renamed \<Rightarrow> lagged_loop (h1[df_shifted := renamed]) df lags (df_list @ [df_shifted]))"

definition lagged_features :: "heap \<Rightarrow> ref \<Rightarrow> int list \<Rightarrow> error + ref \<times> heap" where
  "lagged_features h df lags =
     (case lagged_loop h df lags [] of
        Inl e \<Rightarrow> Inl e
      | Inr (df_list, h') \<Rightarrow>
          (case pd_concat_axis1 (map (\<lambda>a. h' ! a) df_list) of
             Inl e \<Rightarrow> Inl e
           | Inr fea \<Rightarrow> Inr (alloc h' fea)))"

subsection \<open>Moving averages\<close>

definition moving_averages :: "heap \<Rightarrow> ref \<Rightarrow> int \<Rightarrow> int option \<Rightarrow> error + ref \<times> heap" where
  "moving_averages h df start_step window_size_arg =
     (let window_size =
            (case window_size_arg of None \<Rightarrow> int (shape0 (h ! df)) | Some w \<Rightarrow> w);
          (shifted, h1) = alloc h (pd_shift (h ! df) start_step)
      in case pd_rolling_mean (h1 ! shifted) 1 window_size of
           Inl e \<Rightarrow> Inl e
         | Inr mean \<Rightarrow>
             (let (fea, h2) = alloc h1 mean
              in case set_columns (h2 ! fea)
                        (map (\<lambda>x. x @ ''_mean'' @ str window_size) (column_names (h2 ! fea))) of
                   Inl e \<Rightarrow> Inl e
                 | Inr renamed \<Rightarrow> Inr (fea, h2[fea := renamed])))"

subsection \<open>Rows of the per-round tables\<close>

text \<open>
  The key columns \<open>store\<close>, \<open>brand\<close>, \<open>week\<close> are integers. A row of the train
  file carries \<open>profit\<close> and \<open>logmove\<close>; line 78 adds \<open>move\<close>. A row of the auxiliary
  file carries the eleven prices \<open>price1 .. price11\<close> (in this order), \<open>deal\<close> and
  \<open>feat\<close>. A row of \<open>all_df\<close> carries both.
\<close>

type_synonym key = "int \<times> int \<times> int"

definition store :: "key \<Rightarrow> int" where "store k = fst k"
definition brand :: "key \<Rightarrow> int" where "brand k = fst (snd k)"
definition week :: "key \<Rightarrow> int" where "week k = snd (snd k)"

record train =
  train_profit :: cell
  train_logmove :: cell

record sales =
  profit :: cell
  move :: cell
  logmove :: cell

record aux =
  prices :: "cell list"
  deal :: cell
  feat :: cell

record row =
  key :: key
  sales :: sales
  aux :: aux

definition null_sales :: sales where
  "null_sales = \<lparr>profit = None, move = None, logmove = None\<rparr>"

definition null_aux :: aux where
  "null_aux = \<lparr>prices = replicate 11 None, deal = None, feat = None\<rparr>"

subsection \<open>Unit sales\<close>

text \<open>
  Line 78: \<^verbatim>\<open>round(math.exp(x))\<close>. Python's \<^verbatim>\<open>round\<close> of a float rounds a tie to the
  even neighbour and raises ValueError on NaN. The exponential is the real one
  (overflow of \<^verbatim>\<open>math.exp\<close> is not modelled).
\<close>

definition py_round :: "real \<Rightarrow> int" where
  "py_round x =
     (let f = \<lfloor>x\<rfloor>; d = x - of_int f
      in if d < 1 / 2 then f else if 1 / 2 < d then f + 1 else if even f then f else f + 1)"

definition calc_move :: "cell \<Rightarrow> error + cell" where
  "calc_move x = (case x of None \<Rightarrow> Inl ValueError | Some v \<Rightarrow> Inr (Some (of_int (py_round (exp v)))))"

fun add_move :: "(key \<times> train) list \<Rightarrow> error + (key \<times> sales) list" where
  "add_move [] = Inr []"
| "add_move ((k, t) # rest) =
     (case calc_move (train_logmove t) of
        Inl e \<Rightarrow> Inl e
      | Inr m \<Rightarrow>
          (case add_move rest of
             Inl e \<Rightarrow> Inl e
           | Inr rows \<Rightarrow>
               Inr ((k, \<lparr>profit = train_profit t, move = m, logmove = train_logmove t\<rparr>) # rows)))"

subsection \<open>Joining sales and auxiliary data, expanding the grid\<close>

text \<open>
  Line 82, \<^verbatim>\<open>pd.merge(train_df, aux_df, how="right", on=[store, brand, week])\<close>: one
  row for every pair of an auxiliary row and a train row with its key, in the order of
  the auxiliary rows; an auxiliary row without a train row gets null sales columns.
\<close>

definition merge_right :: "(key \<times> sales) list \<Rightarrow> (key \<times> aux) list \<Rightarrow> row list" where
  "merge_right train_df aux_df =
     concat (map (\<lambda>(k, a).
        case filter (\<lambda>(k', s). k' = k) train_df of
          [] \<Rightarrow> [\<lparr>key = k, sales = null_sales, aux = a\<rparr>]
        | ms \<Rightarrow> map (\<lambda>(k', s). \<lparr>key = k, sales = s, aux = a\<rparr>) ms) aux_df)"

text \<open>\<^verbatim>\<open>Series.unique()\<close>: the distinct values in order of first appearance.\<close>

definition unique :: "'a list \<Rightarrow> 'a list" where
  "unique xs = rev (remdups (rev xs))"

text \<open>
  Line 91, \<^verbatim>\<open>item_df.merge(all_df, how="left", on=[store, brand, week])\<close>: for every
  item in order the rows of \<open>all_df\<close> with its key, or one row of nulls when there is
  none.
\<close>

definition null_row :: "key \<Rightarrow> row" where
  "null_row k = \<lparr>key = k, sales = null_sales, aux = null_aux\<rparr>"

definition merge_left :: "key list \<Rightarrow> row list \<Rightarrow> row list" where
  "merge_left item_list all_df =
     concat (map (\<lambda>k.
        case filter (\<lambda>r. key r = k) all_df of
          [] \<Rightarrow> [null_row k]
        | ms \<Rightarrow> ms) item_list)"

text \<open>
  Lines 85 to 91. The weeks of the round are
  \<^verbatim>\<open>range(TRAIN_START_WEEK, TEST_END_WEEK_LIST[submission_round - 1] + 1)\<close>; the two
  bounds come from the benchmark settings and are parameters here.
\<close>

definition item_list :: "int \<Rightarrow> int \<Rightarrow> row list \<Rightarrow> key list" where
  "item_list start_week end_week all_df =
     (let store_list = unique (map (\<lambda>r. store (key r)) all_df);
          brand_list = unique (map (\<lambda>r. brand (key r)) all_df);
          week_list = [start_week..end_week]
      in List.product store_list (List.product brand_list week_list))"

definition expand_grid :: "int \<Rightarrow> int \<Rightarrow> row list \<Rightarrow> row list" where
  "expand_grid start_week end_week all_df =
     merge_left (item_list start_week end_week all_df) all_df"

subsection \<open>Price features\<close>

text \<open>
  Lines 96 to 111. \<open>row_items\<close> are the labelled cells of a row of \<open>all_df\<close>, as the
  row-wise \<^verbatim>\<open>apply\<close> of line 109 sees them; \<^verbatim>\<open>x.loc[label]\<close> raises KeyError for
  a label the row does not have. \<^verbatim>\<open>sum(axis=1)\<close> skips null cells (the sum of no
  cell is 0), so \<open>avg_price\<close> is never null. The quotient of two float columns is
  null where an operand is null, and infinite or null where the divisor is 0.
  On a table without rows the row-wise \<^verbatim>\<open>apply\<close> of pandas returns a table, not a
  column; what the assignment of line 109 does with it is left out of the model.
\<close>

datatype ratio = Finite real | PosInf | NegInf

definition fdiv :: "real \<Rightarrow> real \<Rightarrow> ratio option" where
  "fdiv a b =
     (if b \<noteq> 0 then Some (Finite (a / b))
      else if 0 < a then Some PosInf else if a < 0 then Some NegInf else None)"

definition price_cols :: "string list" where
  "price_cols = [''price1'', ''price2'', ''price3'', ''price4'', ''price5'', ''price6'',
                 ''price7'', ''price8'', ''price9'', ''price10'', ''price11'']"

definition row_items :: "row \<Rightarrow> (string \<times> cell) list" where
  "row_items r =
     [(''store'', Some (of_int (store (key r)))),
      (''brand'', Some (of_int (brand (key r)))),
      (''week'', Some (of_int (week (key r)))),
      (''profit'', profit (sales r)),
      (''move'', move (sales r)),
      (''logmove'', logmove (sales r))] @
     zip price_cols (prices (aux r)) @
     [(''deal'', deal (aux r)), (''feat'', feat (aux r))]"

definition loc :: "row \<Rightarrow> string \<Rightarrow> error + cell" where
  "loc r label = (case map_of (row_items r) label of None \<Rightarrow> Inl KeyError | Some c \<Rightarrow> Inr c)"

fun traverse :: "('a \<Rightarrow> error + 'b) \<Rightarrow> 'a list \<Rightarrow> error + 'b list" where
  "traverse f [] = Inr []"
| "traverse f (x # xs) =
     (case f x of
        Inl e \<Rightarrow> Inl e
      | Inr y \<Rightarrow> (case traverse f xs of Inl e \<Rightarrow> Inl e | Inr ys \<Rightarrow> Inr (y # ys)))"

record priced = row +
  price :: cell
  avg_price :: cell
  price_ratio :: "ratio option"

definition add_prices :: "row \<Rightarrow> error + priced" where
  "add_prices x =
     (case loc x (''price'' @ str (brand (key x))) of
        Inl e \<Rightarrow> Inl e
      | Inr p \<Rightarrow>
          (case traverse (loc x) price_cols of
             Inl e \<Rightarrow> Inl e
           | Inr cs \<Rightarrow>
               (let a = sum_list (observations cs) / real (length price_cols)
                in Inr (row.extend x
                     \<lparr>price = p, avg_price = Some a,
                      price_ratio = (case p of None \<Rightarrow> None | Some v \<Rightarrow> fdiv v a)\<rparr>))))"

definition price_features :: "row list \<Rightarrow> error + priced list" where
  "price_features all_df =
     (if all_df = [] then Inl NotModelled else traverse add_prices all_df)"

text \<open>
  The average of the price columns in the words of the specification: the mean of the
  eleven prices, null where a price is null.
\<close>

definition average_of :: "cell list \<Rightarrow> cell" where
  "average_of cs = (if None \<in> set cs then None else Some (sum_list (map the cs) / real (length cs)))"

subsection \<open>Sorting and filling unit sales\<close>

text \<open>
  Line 126, \<^verbatim>\<open>sort_values(by=[store, brand, week])\<close>: a stable sort on the key.
  Lines 129 to 131: \<^verbatim>\<open>DataFrame.apply\<close> calls the function once per column of the
  selected frame, on the whole column: \<open>move\<close> is filled forward and then backward
  along the sorted table; \<open>store\<close> and \<open>brand\<close> have no null cell and stay.
\<close>

definition sort_values :: "'a row_scheme list \<Rightarrow> 'a row_scheme list" where
  "sort_values all_df = sort_key key all_df"

fun ffill_from :: "cell \<Rightarrow> cell list \<Rightarrow> cell list" where
  "ffill_from prev [] = []"
| "ffill_from prev (None # cs) = prev # ffill_from prev cs"
| "ffill_from prev (Some v # cs) = Some v # ffill_from (Some v) cs"

definition ffill :: "cell list \<Rightarrow> cell list" where
  "ffill cs = ffill_from None cs"

definition bfill :: "cell list \<Rightarrow> cell list" where
  "bfill cs = rev (ffill (rev cs))"

definition filled_sales :: "'a row_scheme list \<Rightarrow> (int \<times> int \<times> cell) list" where
  "filled_sales all_df =
     zip (map (\<lambda>r. store (key r)) all_df)
       (zip (map (\<lambda>r. brand (key r)) all_df)
         (bfill (ffill (map (\<lambda>r. move (sales r)) all_df))))"

text \<open>The script of one round, from the two files to \<open>filled_sales\<close>.\<close>

definition round_filled_sales ::
  "int \<Rightarrow> int \<Rightarrow> (key \<times> train) list \<Rightarrow> (key \<times> aux) list \<Rightarrow> error + (int \<times> int \<times> cell) list" where
  "round_filled_sales start_week end_week train_file aux_df =
     (case add_move train_file of
        Inl e \<Rightarrow> Inl e
      | Inr train_df \<Rightarrow>
          (case price_features (expand_grid start_week end_week (merge_right train_df aux_df)) of
             Inl e \<Rightarrow> Inl e
           | Inr all_df \<Rightarrow> Inr (filled_sales (sort_values all_df))))"

text \<open>
  The fill in the words of the specification: forward and backward within each
  (store, brand) group of the sorted table.
\<close>

definition fill_per_group :: "'a row_scheme list \<Rightarrow> (int \<times> int \<times> cell) list" where
  "fill_per_group all_df =
     concat (map (\<lambda>g. filled_sales (filter (\<lambda>r. (store (key r), brand (key r)) = g) all_df))
       (sort (remdups (map (\<lambda>r. (store (key r), brand (key r))) all_df))))"

subsection \<open>Columns of the output\<close>

text \<open>
  The column labels of the per-round table, line by line. A merge keeps the columns of
  the left table and appends the columns of the right one that are not join keys;
  a name on both sides that is no key gets the suffixes \<open>_x\<close> and \<open>_y\<close>; a missing
  key raises KeyError. An assignment \<^verbatim>\<open>all_df[c] = ...\<close> appends the column \<open>c\<close>
  unless the table has it already.
\<close>

definition keys :: "string list" where
  "keys = [''store'', ''brand'', ''week'']"

definition train_columns :: "string list" where
  "train_columns = [''store'', ''brand'', ''week'', ''profit'', ''move'', ''logmove'']"

definition merge_columns :: "string list \<Rightarrow> string list \<Rightarrow> string list \<Rightarrow> error + string list" where
  "merge_columns left right on =
     (if \<not> (set on \<subseteq> set left \<and> set on \<subseteq> set right) then Inl KeyError
      else Inr (map (\<lambda>c. if c \<notin> set on \<and> c \<in> set right then c @ ''_x'' else c) left @
                map (\<lambda>c. if c \<in> set left then c @ ''_y'' else c) (filter (\<lambda>c. c \<notin> set on) right)))"

definition assign_column :: "string list \<Rightarrow> string \<Rightarrow> string list" where
  "assign_column cols c = (if c \<in> set cols then cols else cols @ [c])"

text \<open>
  Modelled from the spec: the header of the auxiliary file, which is data and not part
  of the code: the key columns, \<open>price1 .. price11\<close>, \<open>deal\<close> and \<open>feat\<close> (AuxRecord).
\<close>

definition aux_columns :: "string list" where
  "aux_columns = keys @ price_cols @ [''deal'', ''feat'']"

text \<open>
  \<^verbatim>\<open>x[["move"]]\<close> for a group \<open>x\<close> of \<open>filled_sales\<close>: a table with the single column
  \<open>move\<close> (its row labels, those of the group in \<open>all_df\<close>, are taken as positions).
\<close>

definition group_move :: "(int \<times> int \<times> cell) list \<Rightarrow> frame" where
  "group_move x = \<lparr>index = map int [0..<length x], columns = [(''move'', map (\<lambda>r. snd (snd r)) x)]\<rparr>"

text \<open>
  The columns of the table written by line 148, for the header \<open>aux_cols\<close> of the
  auxiliary file; \<open>x\<close> is a group of \<open>filled_sales\<close>, on which the two feature
  generators are called (lines 132 and 133) and whose result columns line 134 appends.
\<close>

definition round_columns :: "string list \<Rightarrow> (int \<times> int \<times> cell) list \<Rightarrow> error + string list" where
  "round_columns aux_cols x =
     (case merge_columns train_columns aux_cols keys of
        Inl e \<Rightarrow> Inl e
      | Inr all_df \<Rightarrow>
     (case merge_columns keys all_df keys of
        Inl e \<Rightarrow> Inl e
      | Inr all_df \<Rightarrow>
     (if \<not> set price_cols \<subseteq> set all_df then Inl KeyError
      else
        let all_df = foldl assign_column all_df
              [''price'', ''avg_price'', ''price_ratio'', ''week_start'', ''week_of_month'',
               ''year'', ''month'', ''day'']
        in
     (case returned (lagged_features [group_move x] 0 [2, 3, 4]) of
        Inl e \<Rightarrow> Inl e
      | Inr lagged_fea \<Rightarrow>
     (case returned (moving_averages [group_move x] 0 2 (Some 10)) of
        Inl e \<Rightarrow> Inl e
      | Inr moving_avg \<Rightarrow>
          Inr (all_df @ column_names lagged_fea @ column_names moving_avg))))))"

text \<open>The column list in the words of the specification.\<close>

definition spec_columns :: "string list" where
  "spec_columns =
     [''store'', ''brand'', ''week'', ''profit'', ''move'', ''logmove''] @ price_cols @
     [''deal'', ''feat'', ''price'', ''avg_price'', ''price_ratio'', ''week_start'',
      ''week_of_month'', ''move_lag2'', ''move_lag3'', ''move_lag4'', ''move_mean10'']"

subsection \<open>Closed forms used in the proofs\<close>

text \<open>
  The table one pass of the lag loop leaves in the heap, and the table
  \<open>moving_averages\<close> returns for window \<open>w\<close>.
\<close>

definition lag_frame :: "frame \<Rightarrow> int \<Rightarrow> frame" where
  "lag_frame df lag = df\<lparr>columns := map (\<lambda>(n, xs). (n @ ''_lag'' @ str lag, shift_col lag xs)) (columns df)\<rparr>"

definition mean_frame :: "frame \<Rightarrow> int \<Rightarrow> int \<Rightarrow> frame" where
  "mean_frame df start_step w =
     df\<lparr>columns := map (\<lambda>(n, xs). (n @ ''_mean'' @ str w,
            rolling_mean_col 1 (nat w) (shift_col start_step xs))) (columns df)\<rparr>"

text \<open>
  The row \<open>add_prices\<close> returns for a row with eleven price cells and a brand in
  1 .. 11.
\<close>

definition with_prices :: "row \<Rightarrow> priced" where
  "with_prices r = row.extend r
             \<lparr>price = prices (aux r) ! nat (brand (key r) - 1),
              avg_price = Some (sum_list (observations (prices (aux r))) / 11),
              price_ratio =
                (case prices (aux r) ! nat (brand (key r) - 1) of
                   None \<Rightarrow> None
                 | Some v \<Rightarrow> fdiv v (sum_list (observations (prices (aux r))) / 11))\<rparr>"

subsection \<open>Example data\<close>

text \<open>Two stores, one brand, sales at week 2 only; auxiliary rows for three cells.\<close>

definition ex_train :: "(key \<times> train) list" where
  "ex_train = [((1, 1, 2), \<lparr>train_profit = Some 10, train_logmove = Some 0\<rparr>),
               ((2, 1, 2), \<lparr>train_profit = Some 20, train_logmove = Some (ln 3)\<rparr>)]"

definition ex_aux :: "(key \<times> aux) list" where
  "ex_aux = [((1, 1, 1), \<lparr>prices = replicate 11 (Some 2), deal = Some 0, feat = Some 0\<rparr>),
             ((1, 1, 2), \<lparr>prices = replicate 11 (Some 2), deal = Some 1, feat = Some 0\<rparr>),
             ((2, 1, 2), \<lparr>prices = replicate 11 (Some 3), deal = Some 0, feat = Some 0\<rparr>)]"

definition ex_sales :: "(key \<times> sales) list" where
  "ex_sales = [((1, 1, 2), \<lparr>profit = Some 10, move = Some 1, logmove = Some 0\<rparr>),
               ((2, 1, 2), \<lparr>profit = Some 20, move = Some 3, logmove = Some (ln 3)\<rparr>)]"

text \<open>A three-row table with the single column \<open>move\<close>, for the concrete instances.\<close>

definition ex_move :: frame where
  "ex_move = \<lparr>index = [0, 1, 2], columns = [(''move'', [Some 1, Some 2, Some 3])]\<rparr>"

section \<open>Properties\<close>

subsection \<open>Properties of the calendar helper\<close>

lemma month_cases:
  "1 \<le> m \<Longrightarrow> m \<le> 12 \<Longrightarrow>
     m = 1 \<or> m = 2 \<or> m = 3 \<or> m = 4 \<or> m = 5 \<or> m = 6 \<or> m = 7 \<or> m = 8 \<or> m = 9 \<or>
     m = 10 \<or> m = 11 \<or> m = (12::int)"
  by arith

lemma days_in_month_ge_28: "1 \<le> m \<Longrightarrow> m \<le> 12 \<Longrightarrow> 28 \<le> days_in_month y m"
  using month_cases [of m] by (auto simp: days_in_month_def DAYS_IN_MONTH_def)

lemma days_in_month_le_31: "1 \<le> m \<Longrightarrow> m \<le> 12 \<Longrightarrow> days_in_month y m \<le> 31"
  using month_cases [of m] by (auto simp: days_in_month_def DAYS_IN_MONTH_def)

lemma replace_day_first: "valid_date d \<Longrightarrow> replace_day d 1 = Inr (d\<lparr>day := 1\<rparr>)"
  using days_in_month_ge_28 [of "month d" "year d"]
  by (simp add: replace_day_def valid_date_def Let_def)

lemma weekday_range: "0 \<le> weekday d \<and> weekday d \<le> 6"
  by (simp add: weekday_def)

lemma week_of_month_eq:
  "valid_date d \<Longrightarrow>
     week_of_month d = Inr \<lceil>real_of_int (day d + weekday (d\<lparr>day := 1\<rparr>)) / 7\<rceil>"
  by (simp add: week_of_month_def replace_day_first Let_def)

lemma ceiling_div7_bounds:
  "1 \<le> a \<Longrightarrow> a \<le> 37 \<Longrightarrow> 1 \<le> \<lceil>real_of_int a / 7\<rceil> \<and> \<lceil>real_of_int a / 7\<rceil> \<le> 6"
  by (simp add: ceiling_le_iff le_ceiling_iff) 

lemma ceiling_div7_mono: "a \<le> b \<Longrightarrow> \<lceil>real_of_int a / 7\<rceil> \<le> \<lceil>real_of_int b / 7\<rceil>"
  by (intro ceiling_mono divide_right_mono) simp_all

text \<open>
  Claim C5. For every valid date, \<open>week_of_month\<close> returns (it raises nothing) a
  week number between 1 and 6; and of two valid dates of the same month and year, the
  later one has the greater or equal week number.
\<close>

theorem week_of_month_range_mono:
  "(valid_date d \<longrightarrow> (\<exists>w. week_of_month d = Inr w \<and> 1 \<le> w \<and> w \<le> 6)) \<and>
   (valid_date d1 \<and> valid_date d2 \<and> year d1 = year d2 \<and> month d1 = month d2 \<and>
    day d1 \<le> day d2 \<longrightarrow>
      (\<exists>w1 w2. week_of_month d1 = Inr w1 \<and> week_of_month d2 = Inr w2 \<and> w1 \<le> w2))"
proof (intro conjI impI)
  assume v: "valid_date d"
  then have "day d \<le> 31"
    using days_in_month_le_31 [of "month d" "year d"] by (simp add: valid_date_def)
  moreover from v have "1 \<le> day d" by (simp add: valid_date_def)
  ultimately have "1 \<le> day d + weekday (d\<lparr>day := 1\<rparr>)" "day d + weekday (d\<lparr>day := 1\<rparr>) \<le> 37"
    using weekday_range [of "d\<lparr>day := 1\<rparr>"] by linarith+
  then show "\<exists>w. week_of_month d = Inr w \<and> 1 \<le> w \<and> w \<le> 6"
    using ceiling_div7_bounds week_of_month_eq [OF v] by blast
next
  assume a: "valid_date d1 \<and> valid_date d2 \<and> year d1 = year d2 \<and> month d1 = month d2 \<and>
    day d1 \<le> day d2"
  then have "weekday (d1\<lparr>day := 1\<rparr>) = weekday (d2\<lparr>day := 1\<rparr>)"
    by (simp add: weekday_def toordinal_def)
  then have "day d1 + weekday (d1\<lparr>day := 1\<rparr>) \<le> day d2 + weekday (d2\<lparr>day := 1\<rparr>)"
    using a by linarith
  then show "\<exists>w1 w2. week_of_month d1 = Inr w1 \<and> week_of_month d2 = Inr w2 \<and> w1 \<le> w2"
    using a ceiling_div7_mono week_of_month_eq by blast
qed

theorem week_of_month_range_mono_witness:
  "valid_date \<lparr>year = 2020, month = 3, day = 1\<rparr> \<and>
   valid_date \<lparr>year = 2020, month = 3, day = 31\<rparr> \<and>
   week_of_month \<lparr>year = 2020, month = 3, day = 1\<rparr> = Inr 1 \<and>
   week_of_month \<lparr>year = 2020, month = 3, day = 31\<rparr> = Inr 6 \<and>
   (\<exists>w. week_of_month \<lparr>year = 2020, month = 3, day = 31\<rparr> = Inr w \<and> 1 \<le> w \<and> w \<le> 6) \<and>
   (\<exists>w1 w2. week_of_month \<lparr>year = 2020, month = 3, day = 1\<rparr> = Inr w1 \<and>
      week_of_month \<lparr>year = 2020, month = 3, day = 31\<rparr> = Inr w2 \<and> w1 \<le> w2)"
proof -
  have v1: "valid_date \<lparr>year = 2020, month = 3, day = 1\<rparr>"
    by (simp add: valid_date_def days_in_month_def DAYS_IN_MONTH_def)
  have v2: "valid_date \<lparr>year = 2020, month = 3, day = 31\<rparr>"
    by (simp add: valid_date_def days_in_month_def DAYS_IN_MONTH_def)
  have wd: "weekday \<lparr>year = 2020, month = 3, day = 1\<rparr> = 6"
    by (simp add: weekday_def toordinal_def days_before_year_def days_before_month_def
        DAYS_BEFORE_MONTH_def is_leap_def)
  have w1: "week_of_month \<lparr>year = 2020, month = 3, day = 1\<rparr> = Inr 1"
    using wd by (simp add: week_of_month_eq [OF v1])
  have w2: "week_of_month \<lparr>year = 2020, month = 3, day = 31\<rparr> = Inr 6"
    using wd by (simp add: week_of_month_eq [OF v2] ceiling_eq_iff)
  show ?thesis
    using v1 v2 w1 w2
      week_of_month_range_mono [of "\<lparr>year = 2020, month = 3, day = 31\<rparr>"
        "\<lparr>year = 2020, month = 3, day = 1\<rparr>" "\<lparr>year = 2020, month = 3, day = 31\<rparr>"]
    by simp
qed

subsection \<open>Properties of the feature generators\<close>

lemma zip_fst_snd_map: "zip (map (f \<circ> fst) cs) (map snd cs) = map (\<lambda>(n, xs). (f n, xs)) cs"
  by (induction cs) auto

lemma set_columns_map:
  "set_columns df (map f (column_names df)) = Inr (df\<lparr>columns := map (\<lambda>(n, xs). (f n, xs)) (columns df)\<rparr>)"
  by (simp add: set_columns_def column_names_def zip_fst_snd_map)

lemma rename_shift:
  "set_columns (pd_shift df lag) (map f (column_names (pd_shift df lag))) =
     Inr (df\<lparr>columns := map (\<lambda>(n, xs). (f n, shift_col lag xs)) (columns df)\<rparr>)"
  by (simp add: set_columns_map) (simp add: pd_shift_def case_prod_unfold comp_def)

lemma lagged_loop_frames:
  "df < length h \<Longrightarrow>
     lagged_loop h df lags df_list =
       Inr (df_list @ [length h ..< length h + length lags], h @ map (lag_frame (h ! df)) lags)"
proof (induction lags arbitrary: h df_list)
  case Nil
  then show ?case by simp
next
  case (Cons lag lags)
  have step: "lagged_loop h df (lag # lags) df_list =
      lagged_loop (h @ [lag_frame (h ! df) lag]) df lags (df_list @ [length h])"
    by (simp add: alloc_def rename_shift lag_frame_def)
  have "[length h ..< length h + length (lag # lags)] = length h # [Suc (length h) ..< Suc (length h) + length lags]"
    by (simp add: upt_rec)
  with Cons show ?case
    by (simp only: step) (simp add: nth_append)
qed

lemma lagged_features_frames:
  assumes "df < length h" "lags \<noteq> []"
  shows "lagged_features h df lags =
     Inr (length h + length lags,
          h @ map (lag_frame (h ! df)) lags @
            [\<lparr>index = index (h ! df), columns = concat (map (\<lambda>lag. columns (lag_frame (h ! df) lag)) lags)\<rparr>])"
proof -
  let ?fs = "map (lag_frame (h ! df)) lags"
  have nth: "map (\<lambda>a. (h @ ?fs) ! a) [length h ..< length h + length lags] = ?fs"
    by (rule nth_equalityI) (simp_all add: nth_append)
  obtain l ls where l: "lags = l # ls" using assms(2) by (cases lags) auto
  have cc: "pd_concat_axis1 ?fs = Inr \<lparr>index = index (h ! df), columns = concat (map columns ?fs)\<rparr>"
    by (simp add: pd_concat_axis1_def l lag_frame_def list_all_iff)
  show ?thesis
    by (simp add: lagged_features_def lagged_loop_frames [OF assms(1)] nth cc alloc_def comp_def)
qed

lemma shift_col_length: "length (shift_col k xs) = length xs"
  by (auto simp: shift_col_def)

lemma shift_col_nth:
  "0 \<le> k \<Longrightarrow> i < length xs \<Longrightarrow>
     shift_col k xs ! i = (if i < nat k then None else xs ! (i - nat k))"
  by (auto simp: shift_col_def nth_append)

lemma shift_col_0: "shift_col 0 xs = xs"
  by (simp add: shift_col_def)

lemma window_mean_single: "window_mean (Suc 0) [c] = c"
  by (cases c) (simp_all add: window_mean_def)

lemma rolling_mean_col_1: "rolling_mean_col 1 1 xs = xs"
proof (rule nth_equalityI)
  show "length (rolling_mean_col 1 1 xs) = length xs" by (simp add: rolling_mean_col_def)
next
  fix i assume "i < length (rolling_mean_col 1 1 xs)"
  then have i: "i < length xs" by (simp add: rolling_mean_col_def)
  then have "drop i (take (Suc i) xs) = [xs ! i]"
    by (simp add: take_Suc_conv_app_nth)
  with i show "rolling_mean_col 1 1 xs ! i = xs ! i"
    by (simp add: rolling_mean_col_def window_mean_single)
qed

lemma moving_averages_frames:
  assumes "df < length h"
    and "w = (case wa of None \<Rightarrow> int (shape0 (h ! df)) | Some w \<Rightarrow> w)"
    and "1 \<le> w"
  shows "moving_averages h df start_step wa =
     Inr (Suc (length h), h @ [pd_shift (h ! df) start_step, mean_frame (h ! df) start_step w])"
proof -
  have r: "pd_rolling_mean (pd_shift (h ! df) start_step) 1 w =
      Inr ((h ! df)\<lparr>columns := map (\<lambda>(n, xs). (n, rolling_mean_col 1 (nat w) (shift_col start_step xs))) (columns (h ! df))\<rparr>)"
    using assms(3) by (simp add: pd_rolling_mean_def pd_shift_def case_prod_unfold comp_def)
  show ?thesis
    unfolding moving_averages_def assms(2) [symmetric] Let_def
    by (simp add: alloc_def r set_columns_map mean_frame_def nth_append list_update_append
        case_prod_unfold comp_def)
qed


lemma str_small: "str 1 = ''1''" "str 2 = ''2''" "str 3 = ''3''" "str 4 = ''4''" "str 10 = ''10''"
  by (simp_all add: str_def str_nat.simps)

lemma lag_frame_nth:
  assumes "j < length (columns df)"
  shows "fst (columns (lag_frame df k) ! j) = fst (columns df ! j) @ ''_lag'' @ str k"
    and "snd (columns (lag_frame df k) ! j) = shift_col k (snd (columns df ! j))"
  using assms by (simp_all add: lag_frame_def case_prod_unfold)

text \<open>
  Claim C4. For a single lag \<open>k \<ge> 0\<close>, \<open>lagged_features\<close> returns a table with the
  index of \<open>df\<close> and one column per column of \<open>df\<close>, named with \<open>_lag<k>\<close>
  appended, whose row \<open>i\<close> holds row \<open>i - k\<close> of the input column and whose first
  \<open>k\<close> rows are null. For a non-empty list of lags the returned columns are those of
  the single-lag results, side by side in list order.
\<close>

theorem lagged_features_shift:
  assumes "df < length h"
  shows "(0 \<le> k \<longrightarrow>
           (\<exists>fea. returned (lagged_features h df [k]) = Inr fea \<and>
              index fea = index (h ! df) \<and>
              length (columns fea) = length (columns (h ! df)) \<and>
              (\<forall>j < length (columns (h ! df)).
                 fst (columns fea ! j) = fst (columns (h ! df) ! j) @ ''_lag'' @ str k \<and>
                 length (snd (columns fea ! j)) = length (snd (columns (h ! df) ! j)) \<and>
                 (\<forall>i < length (snd (columns (h ! df) ! j)).
                    snd (columns fea ! j) ! i =
                      (if i < nat k then None else snd (columns (h ! df) ! j) ! (i - nat k)))))) \<and>
         (lags \<noteq> [] \<longrightarrow>
           (\<exists>fea fs. returned (lagged_features h df lags) = Inr fea \<and>
              length fs = length lags \<and>
              (\<forall>n < length lags. returned (lagged_features h df [lags ! n]) = Inr (fs ! n)) \<and>
              index fea = index (h ! df) \<and>
              columns fea = concat (map columns fs)))"
proof (intro conjI impI)
  have single: "returned (lagged_features h df [l]) = Inr (lag_frame (h ! df) l)" for l
    by (simp add: lagged_features_frames [OF assms] returned_def lag_frame_def nth_append)
  {
    assume k: "0 \<le> k"
    show "\<exists>fea. returned (lagged_features h df [k]) = Inr fea \<and>
              index fea = index (h ! df) \<and>
              length (columns fea) = length (columns (h ! df)) \<and>
              (\<forall>j < length (columns (h ! df)).
                 fst (columns fea ! j) = fst (columns (h ! df) ! j) @ ''_lag'' @ str k \<and>
                 length (snd (columns fea ! j)) = length (snd (columns (h ! df) ! j)) \<and>
                 (\<forall>i < length (snd (columns (h ! df) ! j)).
                    snd (columns fea ! j) ! i =
                      (if i < nat k then None else snd (columns (h ! df) ! j) ! (i - nat k))))"
    proof (intro exI conjI allI impI)
      show "returned (lagged_features h df [k]) = Inr (lag_frame (h ! df) k)" by (rule single)
    qed (simp_all add: lag_frame_nth shift_col_length shift_col_nth [OF k], simp_all add: lag_frame_def)
  }
  {
    assume ne: "lags \<noteq> []"
    let ?fs = "map (lag_frame (h ! df)) lags"
    let ?fea = "\<lparr>index = index (h ! df), columns = concat (map columns ?fs)\<rparr>"
    have "returned (lagged_features h df lags) = Inr ?fea"
      by (simp add: lagged_features_frames [OF assms ne] returned_def nth_append comp_def)
    moreover have "\<forall>n < length lags. returned (lagged_features h df [lags ! n]) = Inr (?fs ! n)"
      by (simp add: single)
    ultimately show "\<exists>fea fs. returned (lagged_features h df lags) = Inr fea \<and>
              length fs = length lags \<and>
              (\<forall>n < length lags. returned (lagged_features h df [lags ! n]) = Inr (fs ! n)) \<and>
              index fea = index (h ! df) \<and>
              columns fea = concat (map columns fs)"
      by (intro exI [of _ ?fea] exI [of _ ?fs]) simp
  }
qed


theorem lagged_features_shift_witness:
  "(0::nat) < length [ex_move] \<and> (0::int) \<le> 2 \<and> [2, 3::int] \<noteq> [] \<and>
   returned (lagged_features [ex_move] 0 [2]) =
     Inr \<lparr>index = [0, 1, 2], columns = [(''move_lag2'', [None, None, Some 1])]\<rparr> \<and>
   (\<exists>fea. returned (lagged_features [ex_move] 0 [2]) = Inr fea \<and>
      fst (columns fea ! 0) = ''move_lag2'' \<and> snd (columns fea ! 0) ! 2 = Some 1) \<and>
   (\<exists>fea. returned (lagged_features [ex_move] 0 [2, 3]) = Inr fea \<and> index fea = [0, 1, 2])"
proof -
  have e: "returned (lagged_features [ex_move] 0 [2]) =
     Inr \<lparr>index = [0, 1, 2], columns = [(''move_lag2'', [None, None, Some 1])]\<rparr>"
    by (simp add: returned_def lagged_features_def alloc_def pd_shift_def set_columns_def
        column_names_def pd_concat_axis1_def shift_col_def str_small ex_move_def)
  show ?thesis
    using lagged_features_shift [of 0 "[ex_move]" 2 "[2, 3]"] e
    by (auto simp: ex_move_def)
qed

text \<open>
  Claim C9. With the empty list of lags \<open>lagged_features\<close> fails with ValueError
  (nothing to concatenate); with a non-empty list it returns a table.
\<close>

theorem lagged_features_empty_lags:
  "lagged_features h df [] = Inl ValueError \<and>
   (df < length h \<and> lags \<noteq> [] \<longrightarrow> (\<exists>r. lagged_features h df lags = Inr r))"
proof (intro conjI impI)
  show "lagged_features h df [] = Inl ValueError"
    by (simp add: lagged_features_def pd_concat_axis1_def)
next
  assume "df < length h \<and> lags \<noteq> []"
  then show "\<exists>r. lagged_features h df lags = Inr r"
    by (simp add: lagged_features_frames)
qed

theorem lagged_features_empty_lags_witness:
  "lagged_features [ex_move] 0 [] = Inl ValueError \<and>
   (0::nat) < length [ex_move] \<and> [2, 3, 4::int] \<noteq> [] \<and>
   (\<exists>r. lagged_features [ex_move] 0 [2, 3, 4] = Inr r)"
  using lagged_features_empty_lags [of "[ex_move]" 0 "[2, 3, 4]"] by simp

lemma wf_lag_frame: "wf_frame df \<Longrightarrow> wf_frame (lag_frame df k)"
  by (auto simp: wf_frame_def lag_frame_def shape0_def list_all_iff shift_col_length)

lemma wf_mean_frame: "wf_frame df \<Longrightarrow> wf_frame (mean_frame df s w)"
  by (auto simp: wf_frame_def mean_frame_def shape0_def list_all_iff shift_col_length rolling_mean_col_def)

lemma wf_concat_lag:
  "wf_frame df \<Longrightarrow>
     wf_frame \<lparr>index = index df, columns = concat (map (\<lambda>lag. columns (lag_frame df lag)) lags)\<rparr>"
  by (auto simp: wf_frame_def lag_frame_def shape0_def list_all_iff shift_col_length)

text \<open>
  Claim C10. \<open>lagged_features\<close> with non-empty lags and \<open>moving_averages\<close> with a
  positive window each return a new table (a reference that did not exist before) with
  as many rows as \<open>df\<close>, and every table that was in the heap before the call,
  \<open>df\<close> among them, is unchanged after it.
\<close>

theorem feature_tables_are_new:
  assumes "df < length h"
  shows "(lags \<noteq> [] \<longrightarrow>
           (\<exists>fea h'. lagged_features h df lags = Inr (fea, h') \<and>
              length h \<le> fea \<and> fea < length h' \<and>
              shape0 (h' ! fea) = shape0 (h ! df) \<and>
              (wf_frame (h ! df) \<longrightarrow> wf_frame (h' ! fea)) \<and>
              (\<forall>a < length h. h' ! a = h ! a))) \<and>
         (0 < w \<longrightarrow>
           (\<exists>fea h'. moving_averages h df start_step (Some w) = Inr (fea, h') \<and>
              length h \<le> fea \<and> fea < length h' \<and>
              shape0 (h' ! fea) = shape0 (h ! df) \<and>
              (wf_frame (h ! df) \<longrightarrow> wf_frame (h' ! fea)) \<and>
              (\<forall>a < length h. h' ! a = h ! a)))"
proof (intro conjI impI)
  assume ne: "lags \<noteq> []"
  show "\<exists>fea h'. lagged_features h df lags = Inr (fea, h') \<and>
              length h \<le> fea \<and> fea < length h' \<and>
              shape0 (h' ! fea) = shape0 (h ! df) \<and>
              (wf_frame (h ! df) \<longrightarrow> wf_frame (h' ! fea)) \<and>
              (\<forall>a < length h. h' ! a = h ! a)"
    by (simp add: lagged_features_frames [OF assms ne] nth_append wf_concat_lag)
      (simp add: shape0_def)
next
  assume w: "0 < w"
  have "moving_averages h df start_step (Some w) =
     Inr (Suc (length h), h @ [pd_shift (h ! df) start_step, mean_frame (h ! df) start_step w])"
    using w by (intro moving_averages_frames [OF assms]) simp_all
  then show "\<exists>fea h'. moving_averages h df start_step (Some w) = Inr (fea, h') \<and>
              length h \<le> fea \<and> fea < length h' \<and>
              shape0 (h' ! fea) = shape0 (h ! df) \<and>
              (wf_frame (h ! df) \<longrightarrow> wf_frame (h' ! fea)) \<and>
              (\<forall>a < length h. h' ! a = h ! a)"
    by (simp add: nth_append wf_mean_frame) (simp add: shape0_def mean_frame_def)
qed

theorem feature_tables_are_new_witness:
  "(0::nat) < length [ex_move] \<and> [2, 3, 4::int] \<noteq> [] \<and> (0::int) < 10 \<and> wf_frame ([ex_move] ! 0) \<and>
   (\<exists>fea h'. lagged_features [ex_move] 0 [2, 3, 4] = Inr (fea, h') \<and>
      shape0 (h' ! fea) = 3 \<and> wf_frame (h' ! fea) \<and> h' ! 0 = ex_move) \<and>
   (\<exists>fea h'. moving_averages [ex_move] 0 2 (Some 10) = Inr (fea, h') \<and>
      shape0 (h' ! fea) = 3 \<and> wf_frame (h' ! fea) \<and> h' ! 0 = ex_move)"
proof -
  have wf: "wf_frame ([ex_move] ! 0)" and s: "shape0 ([ex_move] ! 0) = 3"
    by (simp_all add: wf_frame_def shape0_def ex_move_def)
  show ?thesis
    using feature_tables_are_new [of 0 "[ex_move]" "[2, 3, 4]" 10 2] wf s
    by auto
qed

text \<open>
  Claim C6, as stated, fails: with start step 0 and window 1 the returned table has the
  cells of the input, but its columns are renamed, so it is not the input table.
\<close>

theorem moving_averages_identity_counterexample:
  "returned (moving_averages [ex_move] 0 0 (Some 1)) \<noteq> Inr ex_move"
  by (simp add: moving_averages_frames returned_def mean_frame_def ex_move_def str_small)

text \<open>
  Claim C6, amended. \<open>moving_averages(df, 0, window_size=1)\<close> returns the table \<open>df\<close>
  with every cell unchanged and every column name suffixed with \<open>_mean1\<close>.
\<close>

theorem moving_averages_window_1:
  "df < length h \<Longrightarrow>
     returned (moving_averages h df 0 (Some 1)) =
       Inr ((h ! df)\<lparr>columns := map (\<lambda>(n, xs). (n @ ''_mean1'', xs)) (columns (h ! df))\<rparr>)"
  by (simp add: moving_averages_frames returned_def mean_frame_def str_small shift_col_0
      rolling_mean_col_1 [simplified] nth_append)

theorem moving_averages_window_1_witness:
  "(0::nat) < length [ex_move] \<and>
   returned (moving_averages [ex_move] 0 0 (Some 1)) =
     Inr \<lparr>index = [0, 1, 2], columns = [(''move_mean1'', [Some 1, Some 2, Some 3])]\<rparr>"
  using moving_averages_window_1 [of 0 "[ex_move]"] by (simp add: ex_move_def)


lemma rolling_mean_col_cumulative:
  "i < length xs \<Longrightarrow> length xs \<le> w \<Longrightarrow>
     rolling_mean_col 1 w xs ! i =
       (let obs = observations (take (Suc i) xs)
        in if obs = [] then None else Some (sum_list obs / real (length obs)))"
  by (auto simp: rolling_mean_col_def window_mean_def Let_def)

lemma mean_frame_nth:
  assumes "j < length (columns df)"
  shows "fst (columns (mean_frame df s w) ! j) = fst (columns df ! j) @ ''_mean'' @ str w"
    and "snd (columns (mean_frame df s w) ! j) =
           rolling_mean_col 1 (nat w) (shift_col s (snd (columns df ! j)))"
  using assms by (simp_all add: mean_frame_def case_prod_unfold)

lemma wf_frame_nth: "wf_frame df \<Longrightarrow> j < length (columns df) \<Longrightarrow> length (snd (columns df ! j)) = shape0 df"
  by (simp add: wf_frame_def list_all_length)

text \<open>
  Claim C8, as stated for every table, fails on a table without rows: the default
  window is then 0, below \<open>min_periods = 1\<close>, and the rolling mean is refused with
  ValueError.
\<close>

theorem moving_averages_default_window_counterexample:
  "moving_averages [\<lparr>index = [], columns = [(''move'', [])]\<rparr>] 0 2 None = Inl ValueError"
  by (simp add: moving_averages_def alloc_def pd_rolling_mean_def shape0_def)

text \<open>
  Claim C8, amended. For a table \<open>df\<close> with at least one row and any start step, when
  the window size is omitted \<open>moving_averages\<close> returns the table shifted by the start
  step and averaged over a trailing window of as many rows as \<open>df\<close> has, with
  \<open>min_periods = 1\<close>: row \<open>i\<close> is the mean of the non-null cells of rows \<open>0..i\<close> of
  the shifted column, null when there is none; every column name is suffixed with
  \<open>_mean<number of rows>\<close>.
\<close>

theorem moving_averages_default_window:
  assumes "df < length h" and "shape0 (h ! df) \<noteq> 0"
  shows "\<exists>fea. returned (moving_averages h df start_step None) = Inr fea \<and>
           index fea = index (h ! df) \<and>
           length (columns fea) = length (columns (h ! df)) \<and>
           (\<forall>j < length (columns (h ! df)).
              fst (columns fea ! j) =
                fst (columns (h ! df) ! j) @ ''_mean'' @ str (int (shape0 (h ! df))) \<and>
              snd (columns fea ! j) =
                rolling_mean_col 1 (shape0 (h ! df)) (shift_col start_step (snd (columns (h ! df) ! j))) \<and>
              (wf_frame (h ! df) \<longrightarrow>
                 (\<forall>i < shape0 (h ! df).
                    snd (columns fea ! j) ! i =
                      (let obs = observations
                                   (take (Suc i) (shift_col start_step (snd (columns (h ! df) ! j))))
                       in if obs = [] then None else Some (sum_list obs / real (length obs))))))"
proof -
  let ?N = "int (shape0 (h ! df))"
  have run: "moving_averages h df start_step None =
     Inr (Suc (length h), h @ [pd_shift (h ! df) start_step, mean_frame (h ! df) start_step ?N])"
    using assms(2) by (intro moving_averages_frames [OF assms(1)]) simp_all
  have ret: "returned (moving_averages h df start_step None) = Inr (mean_frame (h ! df) start_step ?N)"
    by (simp add: run returned_def nth_append)
  show ?thesis
  proof (intro exI conjI allI impI)
    show "returned (moving_averages h df start_step None) = Inr (mean_frame (h ! df) start_step ?N)"
      by (rule ret)
  next
    fix j i
    assume j: "j < length (columns (h ! df))" and wf: "wf_frame (h ! df)" and i: "i < shape0 (h ! df)"
    have len: "length (shift_col start_step (snd (columns (h ! df) ! j))) = shape0 (h ! df)"
      by (simp add: shift_col_length wf_frame_nth [OF wf j])
    show "snd (columns (mean_frame (h ! df) start_step ?N) ! j) ! i =
       (let obs = observations (take (Suc i) (shift_col start_step (snd (columns (h ! df) ! j))))
        in if obs = [] then None else Some (sum_list obs / real (length obs)))"
      using i len
      by (simp add: mean_frame_nth [OF j] rolling_mean_col_cumulative [unfolded One_nat_def])
  qed (simp_all add: mean_frame_nth, simp_all add: mean_frame_def)
qed

theorem moving_averages_default_window_witness:
  "(0::nat) < length [ex_move] \<and> shape0 ([ex_move] ! 0) \<noteq> 0 \<and> wf_frame ([ex_move] ! 0) \<and>
   returned (moving_averages [ex_move] 0 1 None) =
     Inr \<lparr>index = [0, 1, 2], columns = [(''move_mean3'', [None, Some 1, Some (3 / 2)])]\<rparr> \<and>
   (\<exists>fea. returned (moving_averages [ex_move] 0 1 None) = Inr fea \<and>
      fst (columns fea ! 0) = ''move_mean3'' \<and> index fea = [0, 1, 2])"
proof -
  have wf: "wf_frame ([ex_move] ! 0)" and s: "shape0 ([ex_move] ! 0) = 3"
    by (simp_all add: wf_frame_def shape0_def ex_move_def)
  have e: "returned (moving_averages [ex_move] 0 1 None) =
     Inr \<lparr>index = [0, 1, 2], columns = [(''move_mean3'', [None, Some 1, Some (3 / 2)])]\<rparr>"
    by (simp add: moving_averages_frames returned_def mean_frame_def shape0_def ex_move_def
        str_small shift_col_def rolling_mean_col_def window_mean_def upt_rec)
  show ?thesis
    using moving_averages_default_window [of 0 "[ex_move]" 1] wf s e
    by (auto simp: ex_move_def str_small)
qed

subsection \<open>Properties of the grid expansion\<close>

lemma filter_distinct_key:
  "distinct (map f xs) \<Longrightarrow>
     filter (\<lambda>r. f r = k) xs = [] \<and> k \<notin> f ` set xs \<or>
     (\<exists>r. filter (\<lambda>r. f r = k) xs = [r] \<and> r \<in> set xs \<and> f r = k)"
proof (induction xs)
  case Nil
  then show ?case by simp
next
  case (Cons x xs)
  then have nin: "f x \<notin> f ` set xs" and d: "distinct (map f xs)" by auto
  show ?case
  proof (cases "f x = k")
    case True
    with nin have "filter (\<lambda>r. f r = k) xs = []"
      by (auto simp: filter_empty_conv image_iff)
    with True show ?thesis by simp
  next
    case False
    with Cons.IH [OF d] show ?thesis by auto
  qed
qed

lemma merge_left_keys:
  assumes "distinct (map key all_df)"
  shows "map key (merge_left items all_df) = items"
proof (induction items)
  case Nil
  then show ?case by (simp add: merge_left_def)
next
  case (Cons k ks)
  have "map key (case filter (\<lambda>r. key r = k) all_df of [] \<Rightarrow> [null_row k] | ms \<Rightarrow> ms) = [k]"
    using filter_distinct_key [OF assms, of k] by (auto simp: null_row_def)
  with Cons show ?case by (simp add: merge_left_def)
qed

lemma merge_left_rows:
  "r \<in> set (merge_left items all_df) \<Longrightarrow>
     r \<in> set all_df \<or> (key r \<notin> key ` set all_df \<and> r = null_row (key r))"
proof -
  assume "r \<in> set (merge_left items all_df)"
  then obtain k where r: "r \<in> set (case filter (\<lambda>r. key r = k) all_df of [] \<Rightarrow> [null_row k] | ms \<Rightarrow> ms)"
    by (auto simp: merge_left_def)
  show ?thesis
  proof (cases "filter (\<lambda>r. key r = k) all_df")
    case Nil
    with r have "r = null_row k" by simp
    moreover from Nil have "k \<notin> key ` set all_df" by (auto simp: filter_empty_conv)
    ultimately show ?thesis by (simp add: null_row_def)
  next
    case (Cons a as)
    with r have "r \<in> set (filter (\<lambda>r. key r = k) all_df)" by simp
    then show ?thesis by simp
  qed
qed

lemma merge_right_keys:
  assumes "distinct (map fst train_df)"
  shows "map key (merge_right train_df aux_df) = map fst aux_df"
proof (induction aux_df)
  case Nil
  then show ?case by (simp add: merge_right_def)
next
  case (Cons ka rest)
  obtain k a where ka: "ka = (k, a)" by (cases ka)
  have f: "filter (\<lambda>(k', s). k' = k) train_df = filter (\<lambda>p. fst p = k) train_df"
    by (simp add: case_prod_unfold)
  have "map key (case filter (\<lambda>(k', s). k' = k) train_df of
          [] \<Rightarrow> [\<lparr>key = k, sales = null_sales, aux = a\<rparr>]
        | ms \<Rightarrow> map (\<lambda>(k', s). \<lparr>key = k, sales = s, aux = a\<rparr>) ms) = [k]"
    using filter_distinct_key [OF assms, of k] unfolding f by (auto simp: case_prod_unfold)
  with Cons show ?case by (simp add: merge_right_def ka)
qed

lemma unique_props: "distinct (unique xs)" "set (unique xs) = set xs" "length (unique xs) = card (set xs)"
  by (simp_all add: unique_def length_remdups_card_conv)

lemma item_list_props:
  "distinct (item_list s e all_df)"
  "length (item_list s e all_df) =
     card ((\<lambda>r. store (key r)) ` set all_df) * card ((\<lambda>r. brand (key r)) ` set all_df) * nat (e - s + 1)"
  "set (item_list s e all_df) =
     {k. store k \<in> (\<lambda>r. store (key r)) ` set all_df \<and> brand k \<in> (\<lambda>r. brand (key r)) ` set all_df \<and>
         s \<le> week k \<and> week k \<le> e}"
  by (auto simp: item_list_def Let_def unique_props distinct_product store_def brand_def week_def)

lemma py_round_int: "py_round (of_int n) = n"
  by (simp add: py_round_def)

lemma add_move_ex:
  "add_move ex_train = Inr ex_sales"
  using py_round_int [of 1] py_round_int [of 3]
  by (simp add: ex_train_def ex_sales_def calc_move_def)

lemma expand_grid_ex:
  "map (\<lambda>r. (key r, move (sales r)))
     (expand_grid 1 3 (merge_right ex_sales ex_aux)) =
   [((1, 1, 1), None), ((1, 1, 2), Some 1), ((1, 1, 3), None),
    ((2, 1, 1), None), ((2, 1, 2), Some 3), ((2, 1, 3), None)]"
  by (simp add: expand_grid_def item_list_def merge_left_def merge_right_def ex_sales_def ex_aux_def unique_def
      store_def brand_def null_row_def null_sales_def upto_rec1 Let_def)

text \<open>
  Claim C1. When the keys (store, brand, week) of the train rows and of the auxiliary rows
  are unique, the expanded table has one row for every cell of the grid: its length is
  the number of distinct stores times the number of distinct brands times the number of
  weeks of the round, its keys are distinct and are exactly the cells of the grid, and
  a row whose cell has no row in \<open>all_df\<close> carries nulls. In particular, for two
  stores, one brand, weeks 1 to 3 and sales at week 2 only, the expanded table has 6
  rows, 4 of them with null \<open>move\<close>.
\<close>

theorem grid_expansion_rows:
  "(distinct (map fst train_df) \<and> distinct (map fst aux_df) \<longrightarrow>
      (let all_df = merge_right train_df aux_df;
           grid = expand_grid start_week end_week all_df
       in length grid =
            card ((\<lambda>r. store (key r)) ` set all_df) * card ((\<lambda>r. brand (key r)) ` set all_df) *
            nat (end_week - start_week + 1) \<and>
          distinct (map key grid) \<and>
          set (map key grid) =
            {k. store k \<in> (\<lambda>r. store (key r)) ` set all_df \<and>
                brand k \<in> (\<lambda>r. brand (key r)) ` set all_df \<and>
                start_week \<le> week k \<and> week k \<le> end_week} \<and>
          (\<forall>r \<in> set grid.
             r \<in> set all_df \<or>
             key r \<notin> key ` set all_df \<and> sales r = null_sales \<and> aux r = null_aux))) \<and>
   (\<exists>sales_df. add_move ex_train = Inr sales_df \<and>
      length (expand_grid 1 3 (merge_right sales_df ex_aux)) = 6 \<and>
      length (filter (\<lambda>r. move (sales r) = None) (expand_grid 1 3 (merge_right sales_df ex_aux))) = 4)"
proof (intro conjI impI)
  assume d: "distinct (map fst train_df) \<and> distinct (map fst aux_df)"
  define all_df where "all_df = merge_right train_df aux_df"
  define grid where "grid = expand_grid start_week end_week all_df"
  have dk: "distinct (map key all_df)"
    using d by (simp add: all_df_def merge_right_keys)
  have keys: "map key grid = item_list start_week end_week all_df"
    by (simp add: grid_def expand_grid_def merge_left_keys [OF dk])
  have len: "length grid = length (item_list start_week end_week all_df)"
    using arg_cong [OF keys, of length] by simp
  have nulls: "\<forall>r \<in> set grid.
             r \<in> set all_df \<or>
             key r \<notin> key ` set all_df \<and> sales r = null_sales \<and> aux r = null_aux"
  proof
    fix r assume "r \<in> set grid"
    then have "r \<in> set all_df \<or> (key r \<notin> key ` set all_df \<and> r = null_row (key r))"
      unfolding grid_def expand_grid_def by (rule merge_left_rows)
    then show "r \<in> set all_df \<or>
             key r \<notin> key ` set all_df \<and> sales r = null_sales \<and> aux r = null_aux"
      by (metis null_row_def row.select_convs(2) row.select_convs(3))
  qed
  show "let all_df = merge_right train_df aux_df;
           grid = expand_grid start_week end_week all_df
       in length grid =
            card ((\<lambda>r. store (key r)) ` set all_df) * card ((\<lambda>r. brand (key r)) ` set all_df) *
            nat (end_week - start_week + 1) \<and>
          distinct (map key grid) \<and>
          set (map key grid) =
            {k. store k \<in> (\<lambda>r. store (key r)) ` set all_df \<and>
                brand k \<in> (\<lambda>r. brand (key r)) ` set all_df \<and>
                start_week \<le> week k \<and> week k \<le> end_week} \<and>
          (\<forall>r \<in> set grid.
             r \<in> set all_df \<or>
             key r \<notin> key ` set all_df \<and> sales r = null_sales \<and> aux r = null_aux)"
    unfolding Let_def all_df_def [symmetric] grid_def [symmetric]
    using nulls by (simp only: keys len item_list_props)
next
  let ?g = "expand_grid 1 3 (merge_right ex_sales ex_aux)"
  have "length (map (\<lambda>r. (key r, move (sales r))) ?g) = 6"
    by (simp only: expand_grid_ex) simp
  moreover have "length (filter (\<lambda>p. snd p = None) (map (\<lambda>r. (key r, move (sales r))) ?g)) = 4"
    by (simp only: expand_grid_ex) simp
  ultimately show "\<exists>sales_df. add_move ex_train = Inr sales_df \<and>
      length (expand_grid 1 3 (merge_right sales_df ex_aux)) = 6 \<and>
      length (filter (\<lambda>r. move (sales r) = None) (expand_grid 1 3 (merge_right sales_df ex_aux))) = 4"
    by (simp add: add_move_ex filter_map comp_def)
qed

theorem grid_expansion_rows_witness:
  "(distinct (map fst ex_sales) \<and> distinct (map fst ex_aux)) \<and>
   length (expand_grid 1 3 (merge_right ex_sales ex_aux)) =
     card ((\<lambda>r. store (key r)) ` set (merge_right ex_sales ex_aux)) *
     card ((\<lambda>r. brand (key r)) ` set (merge_right ex_sales ex_aux)) * nat (3 - 1 + 1) \<and>
   distinct (map key (expand_grid 1 3 (merge_right ex_sales ex_aux))) \<and>
   length (expand_grid 1 3 (merge_right ex_sales ex_aux)) = 6"
proof -
  have d: "distinct (map fst ex_sales) \<and> distinct (map fst ex_aux)"
    by (simp add: ex_sales_def ex_aux_def)
  note g = grid_expansion_rows [of ex_sales ex_aux 1 3, THEN conjunct1, rule_format, OF d,
      unfolded Let_def]
  have "length (map (\<lambda>r. (key r, move (sales r))) (expand_grid 1 3 (merge_right ex_sales ex_aux))) = 6"
    by (simp only: expand_grid_ex) simp
  then have "length (expand_grid 1 3 (merge_right ex_sales ex_aux)) = 6" by simp
  with d g show ?thesis by blast
qed

subsection \<open>Properties of the price features\<close>

lemma eleven_cells:
  assumes "length (ps :: 'a list) = 11"
  obtains p1 p2 p3 p4 p5 p6 p7 p8 p9 p10 p11
  where "ps = [p1, p2, p3, p4, p5, p6, p7, p8, p9, p10, p11]"
  using assms by (auto simp: eval_nat_numeral length_Suc_conv)

lemma brand_cases:
  "1 \<le> b \<Longrightarrow> b \<le> 11 \<Longrightarrow>
     b = 1 \<or> b = 2 \<or> b = 3 \<or> b = 4 \<or> b = 5 \<or> b = 6 \<or> b = 7 \<or> b = 8 \<or> b = 9 \<or>
     b = 10 \<or> b = (11::int)"
  by arith

lemma str_brands:
  "str 1 = ''1''" "str 2 = ''2''" "str 3 = ''3''" "str 4 = ''4''" "str 5 = ''5''" "str 6 = ''6''"
  "str 7 = ''7''" "str 8 = ''8''" "str 9 = ''9''" "str 10 = ''10''" "str 11 = ''11''"
  by (simp_all add: str_def str_nat.simps)

lemma loc_price_cols:
  assumes "length (prices (aux r)) = 11"
  shows "traverse (loc r) price_cols = Inr (prices (aux r))"
proof -
  from assms obtain p1 p2 p3 p4 p5 p6 p7 p8 p9 p10 p11
    where ps: "prices (aux r) = [p1, p2, p3, p4, p5, p6, p7, p8, p9, p10, p11]"
    by (rule eleven_cells)
  show ?thesis
    by (simp add: ps price_cols_def loc_def row_items_def)
qed

lemma loc_brand_price:
  assumes "length (prices (aux r)) = 11" and "1 \<le> b" and "b \<le> 11"
  shows "loc r (''price'' @ str b) = Inr (prices (aux r) ! nat (b - 1))"
proof -
  from assms(1) obtain p1 p2 p3 p4 p5 p6 p7 p8 p9 p10 p11
    where ps: "prices (aux r) = [p1, p2, p3, p4, p5, p6, p7, p8, p9, p10, p11]"
    by (rule eleven_cells)
  from brand_cases [OF assms(2,3)] show ?thesis
    by (elim disjE) (simp_all add: str_brands ps price_cols_def loc_def row_items_def)
qed

lemma digit_cases:
  "d < 10 \<Longrightarrow> d = 9 \<or> d = 8 \<or> d = 7 \<or> d = 6 \<or> d = 5 \<or> d = 4 \<or> d = 3 \<or> d = 2 \<or> d = 1 \<or> d = (0::nat)"
  by arith

lemma str_nat_digit: "n < 10 \<Longrightarrow> str_nat n = [''0123456789'' ! n]"
  by (simp add: str_nat.simps)

lemma str_nat_step: "10 \<le> n \<Longrightarrow> str_nat n = str_nat (n div 10) @ [''0123456789'' ! (n mod 10)]"
  by (subst str_nat.simps) simp

lemma str_nat_length1: "1 \<le> length (str_nat n)"
  by (subst str_nat.simps) simp

lemma str_nat_length3: "100 \<le> n \<Longrightarrow> 3 \<le> length (str_nat n)"
proof -
  assume n: "100 \<le> n"
  then have "10 \<le> n div 10" by simp
  then have "str_nat (n div 10) = str_nat (n div 10 div 10) @ [''0123456789'' ! (n div 10 mod 10)]"
    by (rule str_nat_step)
  moreover from n have "str_nat n = str_nat (n div 10) @ [''0123456789'' ! (n mod 10)]"
    by (intro str_nat_step) simp
  ultimately show ?thesis
    using str_nat_length1 [of "n div 10 div 10"] by simp
qed

lemma brand_label_length: "s \<in> set (map str [1..11]) \<Longrightarrow> length s \<le> 2"
  by (auto simp: upto_rec1 str_brands)

lemma str_nat_small:
  assumes "str_nat n \<in> set (map str [1..11])"
  shows "1 \<le> n \<and> n \<le> 11"
proof -
  have lt: "n < 100"
  proof (rule ccontr)
    assume "\<not> n < 100"
    then have "3 \<le> length (str_nat n)" by (intro str_nat_length3) simp
    with brand_label_length [OF assms] show False by simp
  qed
  show ?thesis
  proof (cases "n < 10")
    case True
    from digit_cases [OF True] assms show ?thesis
      by (elim disjE) (simp_all add: str_nat_digit upto_rec1 str_brands)
  next
    case False
    then have step: "str_nat n = [''0123456789'' ! (n div 10), ''0123456789'' ! (n mod 10)]"
      using lt by (simp add: str_nat_step str_nat_digit)
    have a: "n div 10 < 10" and b: "n mod 10 < 10" using lt by simp_all
    from assms have "''0123456789'' ! (n div 10) = CHR ''1'' \<and>
        (''0123456789'' ! (n mod 10) = CHR ''0'' \<or> ''0123456789'' ! (n mod 10) = CHR ''1'')"
      unfolding step by (auto simp: upto_rec1 str_brands)
    then have "n div 10 = 1 \<and> (n mod 10 = 0 \<or> n mod 10 = 1)"
      using digit_cases [OF a] digit_cases [OF b] by (elim disjE conjE) simp_all
    then show ?thesis by presburger
  qed
qed

lemma str_small_brand:
  assumes "str b \<in> set (map str [1..11])"
  shows "1 \<le> b \<and> b \<le> 11"
proof (cases "b < 0")
  case True
  then have "hd (str b) = CHR ''-''" by (simp add: str_def)
  with assms show ?thesis by (auto simp: upto_rec1 str_brands)
next
  case False
  with assms have "str_nat (nat b) \<in> set (map str [1..11])"
    by (simp add: str_def)
  from str_nat_small [OF this] False show ?thesis by linarith
qed

lemma loc_price_KeyError:
  assumes "\<not> (1 \<le> b \<and> b \<le> 11)"
  shows "loc r (''price'' @ str b) = Inl KeyError"
proof -
  have "map_of (row_items r) (''price'' @ str b) = None"
  proof (rule ccontr)
    assume "map_of (row_items r) (''price'' @ str b) \<noteq> None"
    then have "''price'' @ str b \<in> fst ` set (row_items r)"
      by (simp add: map_of_eq_None_iff)
    then have "''price'' @ str b \<in> set price_cols"
      by (auto simp: row_items_def dest: set_zip_leftD)
    then have "str b \<in> set (map str [1..11])"
      by (auto simp: price_cols_def upto_rec1 str_brands)
    from str_small_brand [OF this] assms show False by simp
  qed
  then show ?thesis by (simp add: loc_def)
qed

lemma traverse_Inr_iff:
  "traverse f xs = Inr ys \<longleftrightarrow> length ys = length xs \<and> (\<forall>i < length xs. f (xs ! i) = Inr (ys ! i))"
proof (induction xs arbitrary: ys)
  case Nil
  then show ?case by auto
next
  case (Cons x xs)
  show ?case
  proof (cases ys)
    case Nil
    then show ?thesis by (auto split: sum.splits)
  next
    case (Cons y ys')
    then show ?thesis
      using Cons.IH [of ys'] by (auto simp: nth_Cons split: sum.splits nat.splits)
  qed
qed

lemma traverse_succeeds_iff:
  "(\<exists>ys. traverse f xs = Inr ys) \<longleftrightarrow> (\<forall>x \<in> set xs. \<exists>y. f x = Inr y)"
  by (induction xs) (auto split: sum.splits)

lemma observations_present: "None \<notin> set cs \<Longrightarrow> observations cs = map the cs"
  by (induction cs rule: observations.induct) auto

lemma add_prices_eq:
  assumes "length (prices (aux r)) = 11"
  shows "add_prices r =
     (if 1 \<le> brand (key r) \<and> brand (key r) \<le> 11
      then Inr (row.extend r
             \<lparr>price = prices (aux r) ! nat (brand (key r) - 1),
              avg_price = Some (sum_list (observations (prices (aux r))) / 11),
              price_ratio =
                (case prices (aux r) ! nat (brand (key r) - 1) of
                   None \<Rightarrow> None
                 | Some v \<Rightarrow> fdiv v (sum_list (observations (prices (aux r))) / 11))\<rparr>)
      else Inl KeyError)"
proof (cases "1 \<le> brand (key r) \<and> brand (key r) \<le> 11")
  case True
  then have l: "loc r (''price'' @ str (brand (key r))) = Inr (prices (aux r) ! nat (brand (key r) - 1))"
    by (intro loc_brand_price [OF assms]) simp_all
  show ?thesis
    unfolding add_prices_def l loc_price_cols [OF assms]
    using True by (simp add: price_cols_def Let_def)
next
  case False
  then have l: "loc r (''price'' @ str (brand (key r))) = Inl KeyError"
    by (rule loc_price_KeyError)
  show ?thesis
    unfolding add_prices_def l using False by simp
qed

lemma price_features_nonempty:
  "all_df \<noteq> [] \<Longrightarrow> price_features all_df = traverse add_prices all_df"
  by (simp add: price_features_def)

text \<open>
  Claim C7, amended. On a table with at least one row, whose rows carry eleven price
  cells, the price columns are computed exactly when every brand is one of 1 .. 11
  (otherwise line 109 raises KeyError). Then, for every row: \<open>price\<close> is the price cell selected by the brand
  number; \<open>avg_price\<close> is the sum of the non-null prices divided by eleven, which is
  the average of the eleven prices when none is null (and 0 when all are null);
  \<open>price_ratio\<close> is \<open>price\<close> divided by \<open>avg_price\<close>, null when \<open>price\<close> is null.
\<close>

theorem price_features_rows:
  assumes "\<forall>r \<in> set all_df. length (prices (aux r)) = 11"
  shows "((\<exists>out. price_features all_df = Inr out) \<longleftrightarrow>
            all_df \<noteq> [] \<and> (\<forall>r \<in> set all_df. 1 \<le> brand (key r) \<and> brand (key r) \<le> 11)) \<and>
         (\<forall>out. price_features all_df = Inr out \<longrightarrow>
            length out = length all_df \<and>
            (\<forall>i < length all_df.
               row.truncate (out ! i) = all_df ! i \<and>
               price (out ! i) = prices (aux (all_df ! i)) ! nat (brand (key (all_df ! i)) - 1) \<and>
               avg_price (out ! i) = Some (sum_list (observations (prices (aux (all_df ! i)))) / 11) \<and>
               (None \<notin> set (prices (aux (all_df ! i))) \<longrightarrow>
                  avg_price (out ! i) = average_of (prices (aux (all_df ! i)))) \<and>
               price_ratio (out ! i) =
                 (case price (out ! i) of
                    None \<Rightarrow> None
                  | Some p \<Rightarrow> fdiv p (sum_list (observations (prices (aux (all_df ! i)))) / 11))))"
proof (intro conjI allI impI)
  show "(\<exists>out. price_features all_df = Inr out) \<longleftrightarrow>
            all_df \<noteq> [] \<and> (\<forall>r \<in> set all_df. 1 \<le> brand (key r) \<and> brand (key r) \<le> 11)"
  proof (cases "all_df = []")
    case True
    then show ?thesis by (simp add: price_features_def)
  next
    case False
    then show ?thesis
      unfolding price_features_nonempty [OF False] traverse_succeeds_iff
      using assms by (auto simp: add_prices_eq split: if_splits)
  qed
next
  fix out
  assume "price_features all_df = Inr out"
  then have "traverse add_prices all_df = Inr out"
    by (simp add: price_features_def split: if_splits)
  then have len: "length out = length all_df"
    and each: "\<And>i. i < length all_df \<Longrightarrow> add_prices (all_df ! i) = Inr (out ! i)"
    by (simp_all add: traverse_Inr_iff)
  show "length out = length all_df" by (rule len)
  fix i assume i: "i < length all_df"
  let ?r = "all_df ! i"
  have wf: "length (prices (aux ?r)) = 11" using assms i by simp
  have o: "out ! i = row.extend ?r
             \<lparr>price = prices (aux ?r) ! nat (brand (key ?r) - 1),
              avg_price = Some (sum_list (observations (prices (aux ?r))) / 11),
              price_ratio =
                (case prices (aux ?r) ! nat (brand (key ?r) - 1) of
                   None \<Rightarrow> None
                 | Some v \<Rightarrow> fdiv v (sum_list (observations (prices (aux ?r))) / 11))\<rparr>"
    using each [OF i] by (simp add: add_prices_eq [OF wf] split: if_splits)
  show "row.truncate (out ! i) = ?r" by (simp add: o row.truncate_def row.extend_def)
  show "price (out ! i) = prices (aux ?r) ! nat (brand (key ?r) - 1)"
    by (simp add: o row.extend_def)
  show "avg_price (out ! i) = Some (sum_list (observations (prices (aux ?r))) / 11)"
    by (simp add: o row.extend_def)
  show "price_ratio (out ! i) =
                 (case price (out ! i) of
                    None \<Rightarrow> None
                  | Some p \<Rightarrow> fdiv p (sum_list (observations (prices (aux ?r))) / 11))"
    by (simp add: o row.extend_def)
  assume "None \<notin> set (prices (aux ?r))"
  then show "avg_price (out ! i) = average_of (prices (aux ?r))"
    by (simp add: o row.extend_def average_of_def observations_present wf)
qed

lemma expand_grid_ex_rows:
  "expand_grid 1 3 (merge_right ex_sales ex_aux) =
     [\<lparr>key = (1, 1, 1), sales = null_sales,
       aux = \<lparr>prices = replicate 11 (Some 2), deal = Some 0, feat = Some 0\<rparr>\<rparr>,
      \<lparr>key = (1, 1, 2), sales = \<lparr>profit = Some 10, move = Some 1, logmove = Some 0\<rparr>,
       aux = \<lparr>prices = replicate 11 (Some 2), deal = Some 1, feat = Some 0\<rparr>\<rparr>,
      null_row (1, 1, 3),
      null_row (2, 1, 1),
      \<lparr>key = (2, 1, 2), sales = \<lparr>profit = Some 20, move = Some 3, logmove = Some (ln 3)\<rparr>,
       aux = \<lparr>prices = replicate 11 (Some 3), deal = Some 0, feat = Some 0\<rparr>\<rparr>,
      null_row (2, 1, 3)]"
  by (simp add: expand_grid_def item_list_def merge_left_def merge_right_def ex_sales_def ex_aux_def
      unique_def store_def brand_def upto_rec1 Let_def)

lemma ex_rows_nonempty: "expand_grid 1 3 (merge_right ex_sales ex_aux) \<noteq> []"
  by (simp add: expand_grid_ex_rows)

lemma ex_rows_wf:
  "\<forall>r \<in> set (expand_grid 1 3 (merge_right ex_sales ex_aux)). length (prices (aux r)) = 11"
  by (simp add: expand_grid_ex_rows null_row_def null_aux_def)

lemma ex_price_features:
  "map (\<lambda>r. (key r, price r, avg_price r, price_ratio r))
     (projr (price_features (expand_grid 1 3 (merge_right ex_sales ex_aux)))) =
   [((1, 1, 1), Some 2, Some 2, Some (Finite 1)), ((1, 1, 2), Some 2, Some 2, Some (Finite 1)),
    ((1, 1, 3), None, Some 0, None), ((2, 1, 1), None, Some 0, None),
    ((2, 1, 2), Some 3, Some 3, Some (Finite 1)), ((2, 1, 3), None, Some 0, None)]"
  by (simp add: expand_grid_ex_rows price_features_def add_prices_eq null_row_def null_aux_def
      brand_def row.extend_def fdiv_def eval_nat_numeral)

text \<open>
  Claim C7, as stated for every row of the expanded table, fails on the rows that grid
  expansion adds for cells without auxiliary data: their eleven prices are null, so
  their average (\<open>average_of\<close>) is null, but \<open>avg_price\<close> is 0.
\<close>

theorem avg_price_counterexample:
  "map (\<lambda>r. (key r, avg_price r))
     (projr (price_features (expand_grid 1 3 (merge_right ex_sales ex_aux)))) =
   [((1, 1, 1), Some 2), ((1, 1, 2), Some 2), ((1, 1, 3), Some 0),
    ((2, 1, 1), Some 0), ((2, 1, 2), Some 3), ((2, 1, 3), Some 0)] \<and>
   map (\<lambda>r. (key r, average_of (prices (aux r))))
     (expand_grid 1 3 (merge_right ex_sales ex_aux)) =
   [((1, 1, 1), Some 2), ((1, 1, 2), Some 2), ((1, 1, 3), None),
    ((2, 1, 1), None), ((2, 1, 2), Some 3), ((2, 1, 3), None)]"
proof
  have "map (\<lambda>r. (key r, avg_price r))
     (projr (price_features (expand_grid 1 3 (merge_right ex_sales ex_aux)))) =
     map (\<lambda>(k, p, a, q). (k, a)) (map (\<lambda>r. (key r, price r, avg_price r, price_ratio r))
     (projr (price_features (expand_grid 1 3 (merge_right ex_sales ex_aux)))))"
    by (simp add: comp_def)
  then show "map (\<lambda>r. (key r, avg_price r))
     (projr (price_features (expand_grid 1 3 (merge_right ex_sales ex_aux)))) =
   [((1, 1, 1), Some 2), ((1, 1, 2), Some 2), ((1, 1, 3), Some 0),
    ((2, 1, 1), Some 0), ((2, 1, 2), Some 3), ((2, 1, 3), Some 0)]"
    by (simp only: ex_price_features) simp
next
  show "map (\<lambda>r. (key r, average_of (prices (aux r))))
     (expand_grid 1 3 (merge_right ex_sales ex_aux)) =
   [((1, 1, 1), Some 2), ((1, 1, 2), Some 2), ((1, 1, 3), None),
    ((2, 1, 1), None), ((2, 1, 2), Some 3), ((2, 1, 3), None)]"
    by (simp add: expand_grid_ex_rows average_of_def null_row_def null_aux_def eval_nat_numeral)
qed

theorem price_features_rows_witness:
  "list_all (\<lambda>r. length (prices (aux r)) = 11) (expand_grid 1 3 (merge_right ex_sales ex_aux)) \<and>
   list_all (\<lambda>r. 1 \<le> brand (key r) \<and> brand (key r) \<le> 11)
     (expand_grid 1 3 (merge_right ex_sales ex_aux)) \<and>
   (\<exists>out. price_features (expand_grid 1 3 (merge_right ex_sales ex_aux)) = Inr out \<and>
      length out = 6 \<and> avg_price (out ! 1) = Some 2 \<and> price (out ! 1) = Some 2)"
proof -
  let ?G = "expand_grid 1 3 (merge_right ex_sales ex_aux)"
  have b: "\<forall>r \<in> set ?G. 1 \<le> brand (key r) \<and> brand (key r) \<le> 11"
    by (simp add: expand_grid_ex_rows null_row_def brand_def)
  note t = price_features_rows [OF ex_rows_wf]
  from t b ex_rows_nonempty obtain out where out: "price_features ?G = Inr out" by blast
  have len: "length ?G = 6" by (simp add: expand_grid_ex_rows)
  have r1: "prices (aux (?G ! 1)) = replicate 11 (Some 2)" "brand (key (?G ! 1)) = 1"
    by (simp_all add: expand_grid_ex_rows brand_def)
  from t out len have "length out = 6"
    and "price (out ! 1) = prices (aux (?G ! 1)) ! nat (brand (key (?G ! 1)) - 1)"
    and "avg_price (out ! 1) = Some (sum_list (observations (prices (aux (?G ! 1)))) / 11)"
    by auto
  then have "length out = 6 \<and> avg_price (out ! 1) = Some 2 \<and> price (out ! 1) = Some 2"
    unfolding r1 by (simp add: numeral_eq_Suc)
  with ex_rows_wf b out show ?thesis unfolding list_all_iff by blast
qed

subsection \<open>Properties of the fill\<close>

lemma traverse_map: "(\<forall>x \<in> set xs. f x = Inr (g x)) \<Longrightarrow> traverse f xs = Inr (map g xs)"
  by (induction xs) auto

lemma with_prices_sel: "key (with_prices r) = key r" "sales (with_prices r) = sales r"
  by (simp_all add: with_prices_def row.extend_def)

lemma ex_price_features_rows:
  "price_features (expand_grid 1 3 (merge_right ex_sales ex_aux)) =
     Inr (map with_prices (expand_grid 1 3 (merge_right ex_sales ex_aux)))"
  unfolding price_features_nonempty [OF ex_rows_nonempty]
proof (rule traverse_map, rule ballI)
  fix r assume r: "r \<in> set (expand_grid 1 3 (merge_right ex_sales ex_aux))"
  then have "length (prices (aux r)) = 11" using ex_rows_wf by blast
  moreover from r have "brand (key r) = 1"
    by (auto simp: expand_grid_ex_rows null_row_def brand_def)
  ultimately show "add_prices r = Inr (with_prices r)"
    by (simp add: add_prices_eq with_prices_def)
qed

text \<open>
  Claim C2, evaluated on the example round. The script fills \<open>move\<close> along the whole
  sorted table: the row of store 2 at week 1, whose own group holds the single value 3,
  is filled with 1, the last value of store 1. Filling per (store, brand) group, as the
  claim and the specification say, gives 3 there.
\<close>

theorem fill_crosses_groups:
  "round_filled_sales 1 3 ex_train ex_aux =
     Inr [(1, 1, Some 1), (1, 1, Some 1), (1, 1, Some 1),
          (2, 1, Some 1), (2, 1, Some 3), (2, 1, Some 3)] \<and>
   fill_per_group (sort_values (expand_grid 1 3 (merge_right ex_sales ex_aux))) =
         [(1, 1, Some 1), (1, 1, Some 1), (1, 1, Some 1),
          (2, 1, Some 3), (2, 1, Some 3), (2, 1, Some 3)]"
proof
  show "round_filled_sales 1 3 ex_train ex_aux =
     Inr [(1, 1, Some 1), (1, 1, Some 1), (1, 1, Some 1),
          (2, 1, Some 1), (2, 1, Some 3), (2, 1, Some 3)]"
    by (simp add: round_filled_sales_def add_move_ex ex_price_features_rows)
      (simp add: expand_grid_ex_rows sort_values_def filled_sales_def with_prices_sel
        null_row_def null_sales_def store_def brand_def ffill_def bfill_def)
next
  show "fill_per_group (sort_values (expand_grid 1 3 (merge_right ex_sales ex_aux))) =
         [(1, 1, Some 1), (1, 1, Some 1), (1, 1, Some 1),
          (2, 1, Some 3), (2, 1, Some 3), (2, 1, Some 3)]"
    by (simp add: expand_grid_ex_rows sort_values_def fill_per_group_def filled_sales_def
        null_row_def null_sales_def store_def brand_def ffill_def bfill_def)
qed

subsection \<open>Properties of the output columns\<close>

lemma group_features:
  "returned (lagged_features [group_move x] 0 [2, 3, 4]) = Inr lf \<Longrightarrow>
     column_names lf = [''move_lag2'', ''move_lag3'', ''move_lag4'']"
  "returned (moving_averages [group_move x] 0 2 (Some 10)) = Inr mf \<Longrightarrow>
     column_names mf = [''move_mean10'']"
  by (auto simp: lagged_features_frames moving_averages_frames returned_def lag_frame_def
      mean_frame_def group_move_def column_names_def str_small nth_append)

lemma group_features_return:
  "\<exists>lf. returned (lagged_features [group_move x] 0 [2, 3, 4]) = Inr lf"
  "\<exists>mf. returned (moving_averages [group_move x] 0 2 (Some 10)) = Inr mf"
  by (simp_all add: lagged_features_frames moving_averages_frames returned_def)

lemma all_df_columns:
  "merge_columns train_columns aux_columns keys =
     Inr ([''store'', ''brand'', ''week'', ''profit'', ''move'', ''logmove''] @ price_cols @ [''deal'', ''feat''])"
  "merge_columns keys ([''store'', ''brand'', ''week'', ''profit'', ''move'', ''logmove''] @ price_cols @ [''deal'', ''feat'']) keys =
     Inr ([''store'', ''brand'', ''week'', ''profit'', ''move'', ''logmove''] @ price_cols @ [''deal'', ''feat''])"
  by (simp_all add: merge_columns_def train_columns_def aux_columns_def keys_def price_cols_def)

lemma round_columns_eq:
  "round_columns aux_columns x =
     Inr ([''store'', ''brand'', ''week'', ''profit'', ''move'', ''logmove''] @ price_cols @
          [''deal'', ''feat'', ''price'', ''avg_price'', ''price_ratio'', ''week_start'',
           ''week_of_month'', ''year'', ''month'', ''day'',
           ''move_lag2'', ''move_lag3'', ''move_lag4'', ''move_mean10''])"
proof -
  obtain lf mf where lf: "returned (lagged_features [group_move x] 0 [2, 3, 4]) = Inr lf"
    and mf: "returned (moving_averages [group_move x] 0 2 (Some 10)) = Inr mf"
    using group_features_return by blast
  show ?thesis
    unfolding round_columns_def all_df_columns lf mf
    by (simp add: group_features(1) [OF lf] group_features(2) [OF mf] assign_column_def
        price_cols_def merge_columns_def keys_def)
qed

text \<open>
  Claim C3, amended. The table written for a round has exactly the columns store,
  brand, week, profit, move, logmove, price1 .. price11, deal, feat, price, avg_price,
  price_ratio, week_start, week_of_month, year, month, day, move_lag2, move_lag3,
  move_lag4, move_mean10, in this order.
\<close>

theorem round_columns_output:
  "round_columns aux_columns x =
     Inr ([''store'', ''brand'', ''week'', ''profit'', ''move'', ''logmove''] @ price_cols @
          [''deal'', ''feat'', ''price'', ''avg_price'', ''price_ratio'', ''week_start'',
           ''week_of_month'', ''year'', ''month'', ''day'',
           ''move_lag2'', ''move_lag3'', ''move_lag4'', ''move_mean10''])"
  by (rule round_columns_eq)

text \<open>
  Claim C3, as stated, fails: lines 119 to 121 add the columns year, month and day,
  which the claimed list does not have.
\<close>

theorem round_columns_counterexample:
  "round_columns aux_columns [(1, 1, Some 1), (1, 1, Some 1), (1, 1, Some 1)] \<noteq> Inr spec_columns"
  by (simp add: round_columns_eq spec_columns_def price_cols_def)

theorem round_columns_output_witness:
  "round_columns aux_columns [(1, 1, Some 1), (1, 1, Some 1), (1, 1, Some 1)] =
     Inr [''store'', ''brand'', ''week'', ''profit'', ''move'', ''logmove'',
          ''price1'', ''price2'', ''price3'', ''price4'', ''price5'', ''price6'', ''price7'',
          ''price8'', ''price9'', ''price10'', ''price11'', ''deal'', ''feat'',
          ''price'', ''avg_price'', ''price_ratio'', ''week_start'', ''week_of_month'',
          ''year'', ''month'', ''day'', ''move_lag2'', ''move_lag3'', ''move_lag4'', ''move_mean10'']"
  using round_columns_output [of "[(1, 1, Some 1), (1, 1, Some 1), (1, 1, Some 1)]"]
  by (simp add: price_cols_def)

end
